theory Spec2Isabelle
  imports Main "HOL-Library.Sublist"
begin

section \<open>The prompt of eigenvalue: registry, completion, dispatch, history\<close>

text \<open>
  A shallow embedding of the prompt module (its static variables \<open>el\<close>, \<open>hist\<close>,
  \<open>tok\<close> and \<open>commands\<close>, and the functions working on them) together with the
  declarations of \<open>ev-prompt.h\<close> and the start-up sequence of \<open>ev-application.c\<close>.

  C strings are \<open>string\<close>s without their terminating NUL; a pointer that may be
  \<open>NULL\<close> is an \<open>option\<close>; a sentinel-terminated array is the list of its entries
  before the sentinel. Undefined behaviour of the C code is a \<open>fault\<close>.
\<close>

subsection \<open>Characters used by the module\<close>

definition newline :: char where
  "newline = CHR 0x0A"

definition escape :: char where
  "escape = CHR 0x1B"

definition apostrophe :: char where
  "apostrophe = CHR 0x27"

definition marker :: char where
  "marker = CHR ''/''"

subsection \<open>Declarations of ev-prompt.h\<close>

datatype EvCmdOptFlags = EV_CMD_OPT_FLAG_NONE | EV_CMD_OPT_FLAG_OPTIONAL

text \<open>\<open>GStrv\<close>: \<open>NULL\<close> or a vector of strings.\<close>

type_synonym GStrv = "string list option"

text \<open>\<open>EvCmdOptCompl\<close>: \<open>GStrv (const char *word, int len)\<close>.\<close>

type_synonym EvCmdOptCompl = "string \<Rightarrow> int \<Rightarrow> GStrv"

record EvCmdOpt =
  opt_name :: string
  desc :: string
  flags :: EvCmdOptFlags
  completer :: "EvCmdOptCompl option"

text \<open>
  \<open>EvCmdFunc\<close>: \<open>GString *(GStrv args, GError **error)\<close>. The result is the returned
  buffer (\<open>None\<close> for \<open>NULL\<close>) and the message of the error the handler has set
  (\<open>None\<close> when it has set none). What a handler does beyond that is not part of
  the prompt.
\<close>

type_synonym EvCmdFunc = "string list \<Rightarrow> string option \<times> string option"

record EvCmd =
  name :: string
  help_summary :: string
  func :: EvCmdFunc
  opts :: "EvCmdOpt list option"

subsection \<open>The line editor, the tokenizer and the history store (libedit)\<close>

text \<open>
  The prompt is built on libedit, which is not part of the repository. What the prompt
  relies on is modelled after editline(3).

  The editor holds the characters of the current line and the cursor's position in it.
  \<open>el_insertstr\<close> inserts a string at the cursor and returns -1 (here \<open>None\<close>) "if str
  is empty or won't fit"; running out of memory is left out.
\<close>

record EditLine =
  buffer :: string
  cursor :: nat

definition el_init :: EditLine where
  "el_init = \<lparr>buffer = [], cursor = 0\<rparr>"

definition el_insertstr :: "EditLine \<Rightarrow> string \<Rightarrow> EditLine option" where
  "el_insertstr e str =
     (if str = [] then None
      else Some \<lparr>buffer = take (cursor e) (buffer e) @ str @ drop (cursor e) (buffer e),
                 cursor = cursor e + length str\<rparr>)"

text \<open>
  \<open>tok_line\<close> splits the editor's line into words and reports the word the cursor is
  in (\<open>cc\<close>, equal to the number of words when the cursor is behind the last one) and
  the cursor's offset in that word (\<open>co\<close>). Its result is an input of the model:
  a negative return value, a return value of 0 with the outputs \<open>av\<close> (of length
  \<open>ac\<close>), \<open>cc\<close> and \<open>co\<close>, or a positive return value (an unmatched quote, a line
  continuation), which leaves the outputs as they were.
\<close>

datatype tok_result = Tok_Error | Tok_Ok "string list" nat nat | Tok_Unmatched

text \<open>
  The history store: its events, oldest first, its size (\<open>H_SETSIZE\<close>) and the flag
  of \<open>H_SETUNIQUE\<close>, "that adjacent identical event strings should not be entered into
  the history". \<open>H_ENTER\<close> adds "str as a new element to the history and, if necessary,
  [removes] the oldest entry to keep the list to the created size". \<open>H_LOAD\<close> enters
  the lines of the file, given here by its contents.
\<close>

record History =
  events :: "string list"
  hsize :: nat
  unique :: bool

datatype hist_op = H_SETSIZE int | H_SETUNIQUE int | H_LOAD "string list" | H_ENTER string

definition history_init :: History where
  "history_init = \<lparr>events = [], hsize = 0, unique = False\<rparr>"

definition history_enter :: "History \<Rightarrow> string \<Rightarrow> History" where
  "history_enter h str =
     (if unique h \<and> events h \<noteq> [] \<and> last (events h) = str then h
      else h\<lparr>events := drop (Suc (length (events h)) - hsize h) (events h @ [str])\<rparr>)"

fun history :: "History \<Rightarrow> hist_op \<Rightarrow> History" where
  "history h (H_SETSIZE num) = (if num < 0 then h else h\<lparr>hsize := nat num\<rparr>)"
| "history h (H_SETUNIQUE u) = h\<lparr>unique := (u \<noteq> 0)\<rparr>"
| "history h (H_LOAD file) = foldl history_enter h file"
| "history h (H_ENTER str) = history_enter h str"

subsection \<open>libc\<close>

text \<open>
  \<open>strncmp\<close> compares at most \<open>n\<close> characters and stops at the end of either string;
  the end of a string compares less than any character.
\<close>

fun strncmp :: "string \<Rightarrow> string \<Rightarrow> nat \<Rightarrow> int" where
  "strncmp s1 s2 0 = 0"
| "strncmp [] [] (Suc n) = 0"
| "strncmp [] (y # ys) (Suc n) = - 1"
| "strncmp (x # xs) [] (Suc n) = 1"
| "strncmp (x # xs) (y # ys) (Suc n) =
     (if x = y then strncmp xs ys n
      else if (of_char x :: nat) < of_char y then - 1 else 1)"

subsection \<open>The state of the prompt\<close>

datatype fault = Assertion_Failed | Out_Of_Bounds | Uninitialised_Read

datatype cc_ret = CC_ERROR | CC_REDISPLAY | CC_REFRESH

text \<open>
  The static variables of the module, what it has printed with \<open>g_print\<close> and logged
  with \<open>g_critical\<close>, and a record of the calls it has made through the function
  pointers of the registry: the completers (with the option they belong to and their
  arguments) and the handlers (with their command and arguments). \<open>tok_dirty\<close> says
  that the tokenizer holds the words of a line (\<open>tok_line\<close> without \<open>tok_reset\<close>),
  \<open>el_inits\<close> counts the editors created.
\<close>

record shell =
  commands :: "EvCmd list"
  el :: EditLine
  hist :: History
  tok_dirty :: bool
  stdout :: string
  critical :: "string list"
  completer_calls :: "(EvCmdOpt \<times> string \<times> int) list"
  func_calls :: "(EvCmd \<times> string list) list"
  el_inits :: nat

subsection \<open>Looking up commands and options\<close>

text \<open>\<open>ev_cmds_get\<close>: the first command of the registry with that name.\<close>

fun ev_cmds_get :: "EvCmd list \<Rightarrow> string \<Rightarrow> EvCmd option" where
  "ev_cmds_get [] command = None"
| "ev_cmds_get (c # cs) command =
     (if command = name c then Some c else ev_cmds_get cs command)"

text \<open>The loop of \<open>ev_cmd_get_opt\<close> over the options up to the sentinel, from index \<open>i\<close>.\<close>

fun opts_scan :: "EvCmdOpt list \<Rightarrow> nat \<Rightarrow> nat \<Rightarrow> EvCmdOpt option" where
  "opts_scan [] i num = None"
| "opts_scan (opt # rest) i num =
     (if i = num then Some opt else opts_scan rest (Suc i) num)"

definition ev_cmd_get_opt :: "EvCmd list \<Rightarrow> string \<Rightarrow> nat \<Rightarrow> EvCmdOpt option" where
  "ev_cmd_get_opt cmds command num =
     (case ev_cmds_get cmds command of
        None \<Rightarrow> None
      | Some cmd \<Rightarrow>
          (case opts cmd of
             None \<Rightarrow> None
           | Some os \<Rightarrow> opts_scan os 0 num))"

subsection \<open>Completion\<close>

text \<open>
  \<open>pos > strlen (name)\<close> compares an \<open>int\<close> with a \<open>size_t\<close>: \<open>pos\<close> is converted to
  \<open>size_t\<close>, so that a negative \<open>pos\<close> is larger than the length of any string.
\<close>

definition exceeds_strlen :: "int \<Rightarrow> string \<Rightarrow> bool" where
  "exceeds_strlen pos str = (pos < 0 \<or> length str < nat pos)"

text \<open>The loop of \<open>complete_command\<close> over the registry, after the marker is skipped.\<close>

fun command_matches :: "EvCmd list \<Rightarrow> string \<Rightarrow> int \<Rightarrow> string list" where
  "command_matches [] word pos = []"
| "command_matches (c # cs) word pos =
     (if exceeds_strlen pos (name c) then command_matches cs word pos
      else if strncmp (name c) word (nat pos) = 0
        then (marker # name c) # command_matches cs word pos
      else command_matches cs word pos)"

definition complete_command :: "EvCmd list \<Rightarrow> string \<Rightarrow> int \<Rightarrow> GStrv" where
  "complete_command cmds word pos =
     (case word of
        [] \<Rightarrow> None
      | w0 # rest \<Rightarrow>
          if w0 \<noteq> marker then None
          else Some (command_matches cmds rest (pos - 1)))"

text \<open>
  \<open>print_or_insert_completions\<close>. \<open>&completions[0][pos]\<close> is the candidate from
  offset \<open>pos\<close>, which lies outside the candidate when \<open>pos\<close> exceeds its length.
\<close>

definition print_or_insert_completions ::
    "shell \<Rightarrow> GStrv \<Rightarrow> int \<Rightarrow> fault + cc_ret \<times> shell" where
  "print_or_insert_completions s completions pos =
     (case completions of
        None \<Rightarrow> Inr (CC_ERROR, s)
      | Some [] \<Rightarrow> Inr (CC_ERROR, s)
      | Some [c] \<Rightarrow>
          if pos < 0 \<or> length c < nat pos then Inl Out_Of_Bounds
          else
            (case el_insertstr (el s) (drop (nat pos) c) of
               None \<Rightarrow> Inr (CC_ERROR, s)
             | Some e \<Rightarrow>
                 Inr (CC_REFRESH,
                   s\<lparr>el := (case el_insertstr e '' '' of None \<Rightarrow> e | Some e' \<Rightarrow> e')\<rparr>))
      | Some cs \<Rightarrow>
          Inr (CC_REDISPLAY,
            s\<lparr>stdout := stdout s @ [newline] @ concat (map (\<lambda>c. c @ '' '') cs) @ [newline]\<rparr>))"

text \<open>The label \<open>out\<close> of \<open>complete\<close>: \<open>tok_reset\<close>, then return.\<close>

definition tok_reset :: "shell \<Rightarrow> shell" where
  "tok_reset s = s\<lparr>tok_dirty := False\<rparr>"

definition out :: "fault + cc_ret \<times> shell \<Rightarrow> fault + cc_ret \<times> shell" where
  "out r = (case r of Inl f \<Rightarrow> Inl f | Inr (ret, s) \<Rightarrow> Inr (ret, tok_reset s))"

text \<open>
  \<open>complete\<close>, bound to the Tab key. After a positive return value of \<open>tok_line\<close> the
  locals \<open>ac\<close>, \<open>cc\<close> and \<open>co\<close> are still 0 and \<open>av\<close> is not read. \<open>name++\<close> on an empty
  first word steps over its terminator.
\<close>

definition complete :: "shell \<Rightarrow> tok_result \<Rightarrow> fault + cc_ret \<times> shell" where
  "complete s t =
     (case t of
        Tok_Error \<Rightarrow>
          Inr (CC_ERROR,
            s\<lparr>tok_dirty := True, critical := critical s @ [''Internal error parsing input'']\<rparr>)
      | _ \<Rightarrow>
          (let (av, cc, co) = (case t of Tok_Ok av cc co \<Rightarrow> (av, cc, co) | _ \<Rightarrow> ([], 0, 0));
               ac = length av;
               s1 = s\<lparr>tok_dirty := True\<rparr>
           in
             if ac < 2 \<and> cc = 0 then
               (let match = (if cc \<ge> ac then [] else av ! cc) in
                  out (print_or_insert_completions s1
                         (complete_command (commands s1) match (int co)) (int co)))
             else if ac = 0 \<or> cc = 0 then out (Inr (CC_ERROR, s1))
             else
               (case av ! 0 of
                  [] \<Rightarrow> Inl Out_Of_Bounds
                | a # command \<Rightarrow>
                    (case ev_cmd_get_opt (commands s1) command (cc - 1) of
                       None \<Rightarrow> out (Inr (CC_ERROR, s1))
                     | Some opt \<Rightarrow>
                         (case completer opt of
                            None \<Rightarrow> out (Inr (CC_ERROR, s1))
                          | Some f \<Rightarrow>
                              (let match = (if cc \<ge> ac then [] else av ! cc);
                                   s2 = s1\<lparr>completer_calls :=
                                          completer_calls s1 @ [(opt, match, int co)]\<rparr>
                               in out (print_or_insert_completions s2
                                         (f match (int co)) (int co))))))))"

subsection \<open>Dispatch\<close>

text \<open>\<open>reset\<close>: a new editor, and \<open>tok_reset\<close>.\<close>

definition reset :: "shell \<Rightarrow> shell" where
  "reset s = tok_reset (s\<lparr>el := el_init, el_inits := Suc (el_inits s)\<rparr>)"

text \<open>What \<open>run_command\<close> prints for the result of a handler.\<close>

definition render :: "string option \<times> string option \<Rightarrow> string" where
  "render r =
     (case r of
        (Some str, err) \<Rightarrow> (if length str \<noteq> 0 then [newline] @ str @ [newline] else [])
      | (None, err) \<Rightarrow>
          [escape] @ ''[31m'' @
          (case err of
             Some message \<Rightarrow> ''Command failed: '' @ message @ [newline]
           | None \<Rightarrow> ''Internal error - Command failed to set error'' @ [newline]) @
          [escape] @ ''[39m'')"

text \<open>
  The loop of \<open>run_command\<close> over the registry: \<open>command\<close> is \<open>av[0] + 1\<close>, \<open>args\<close> are
  \<open>av[1]\<close> to \<open>av[ac - 1]\<close>.
\<close>

fun run_command_loop :: "EvCmd list \<Rightarrow> shell \<Rightarrow> string \<Rightarrow> string list \<Rightarrow> shell" where
  "run_command_loop [] s command args =
     s\<lparr>stdout := stdout s @ [newline] @ ''Unknown command '' @ [apostrophe] @ command @
                    [apostrophe] @ [newline]\<rparr>"
| "run_command_loop (c # cs) s command args =
     (if command = name c then
        s\<lparr>func_calls := func_calls s @ [(c, args)],
          stdout := stdout s @ render (func c args)\<rparr>
      else run_command_loop cs s command args)"

definition run_command :: "shell \<Rightarrow> string list \<Rightarrow> fault + shell" where
  "run_command s av =
     (case av of
        [] \<Rightarrow> Inl Out_Of_Bounds
      | a0 # args \<Rightarrow>
          (case a0 of
             [] \<Rightarrow> Inl Out_Of_Bounds
           | a # command \<Rightarrow> Inr (run_command_loop (commands s) s command args)))"

text \<open>
  \<open>on_stdin_ready\<close>, after \<open>el_gets\<close> has read the pending input into the editor:
  \<open>buf\<close> and \<open>li\<close> are the editor's line, which ends with the newline once the line is
  submitted. On an empty line \<open>li->lastchar - 1\<close> lies before the buffer. After a
  positive return value of \<open>tok_line\<close>, \<open>av\<close> is read uninitialised.
\<close>

definition on_stdin_ready :: "shell \<Rightarrow> tok_result \<Rightarrow> fault + shell" where
  "on_stdin_ready s t =
     (let buf = buffer (el s) in
        if buf = [] then Inl Out_Of_Bounds
        else if last buf \<noteq> newline then Inr s
        else
          (case t of
             Tok_Error \<Rightarrow>
               Inr (reset (s\<lparr>tok_dirty := True,
                             critical := critical s @ [''Internal error parsing input'']\<rparr>))
           | _ \<Rightarrow>
               (let s1 = s\<lparr>tok_dirty := True\<rparr> in
                  if length buf = 0 then Inr (reset s1)
                  else
                    (let s2 = (if length buf > 1
                               then s1\<lparr>hist := history (hist s1) (H_ENTER buf)\<rparr> else s1)
                     in
                       (case t of
                          Tok_Ok av cc co \<Rightarrow>
                            (case av of
                               [] \<Rightarrow> Inr (reset s2)
                             | a0 # args \<Rightarrow>
                                 if a0 \<noteq> [] \<and> hd a0 = marker then
                                   (case run_command s2 av of
                                      Inl f \<Rightarrow> Inl f
                                    | Inr s3 \<Rightarrow> Inr (reset s3))
                                 else Inr (reset s2))
                        | _ \<Rightarrow> Inl Uninitialised_Read)))))"

subsection \<open>Start-up\<close>

text \<open>
  \<open>ev_prompt_add_commands\<close> and \<open>ev_matrix_add_commands\<close> append the entries of their
  static table, up to the sentinel, to the array. The tables are parameters: their
  handlers are outside the prompt.
\<close>

fun ev_prompt_add_commands :: "EvCmd list \<Rightarrow> EvCmd list \<Rightarrow> EvCmd list" where
  "ev_prompt_add_commands [] commands' = commands'"
| "ev_prompt_add_commands (c # prompt_commands) commands' =
     ev_prompt_add_commands prompt_commands (commands' @ [c])"

fun ev_matrix_add_commands :: "EvCmd list \<Rightarrow> EvCmd list \<Rightarrow> EvCmd list" where
  "ev_matrix_add_commands [] commands' = commands'"
| "ev_matrix_add_commands (c # matrix_commands) commands' =
     ev_matrix_add_commands matrix_commands (commands' @ [c])"

text \<open>
  \<open>ev_prompt_init\<close>. The static variables are \<open>NULL\<close> before (\<open>None\<close>); \<open>saved\<close> is
  the contents of the history file in the cache directory, if the file exists.
\<close>

definition ev_prompt_init ::
    "shell option \<Rightarrow> EvCmd list \<Rightarrow> string list option \<Rightarrow> fault + shell" where
  "ev_prompt_init statics commands' saved =
     (case statics of
        Some s \<Rightarrow> Inl Assertion_Failed
      | None \<Rightarrow>
          (let h0 = history_init;
               h1 = history h0 (H_SETSIZE 100);
               h2 = history h1 (H_SETUNIQUE 1);
               h3 = (case saved of None \<Rightarrow> h2 | Some file \<Rightarrow> history h2 (H_LOAD file))
           in Inr (reset \<lparr>commands = commands', el = el_init, hist = h3, tok_dirty = False,
                          stdout = [], critical = [], completer_calls = [],
                          func_calls = [], el_inits = 0\<rparr>)))"

text \<open>
  \<open>ev_application_startup\<close>: the commands of the matrix module, unless the debug flag
  \<open>no-matrix\<close> is set, then those of the prompt, then \<open>ev_prompt_init\<close>.
\<close>

definition ev_application_startup ::
    "shell option \<Rightarrow> bool \<Rightarrow> EvCmd list \<Rightarrow> EvCmd list \<Rightarrow> string list option \<Rightarrow> fault + shell" where
  "ev_application_startup statics no_matrix matrix_commands prompt_commands saved =
     (let commands0 = [];
          commands1 = (if \<not> no_matrix then ev_matrix_add_commands matrix_commands commands0
                       else commands0);
          commands2 = ev_prompt_add_commands prompt_commands commands1
      in ev_prompt_init statics commands2 saved)"

subsection \<open>The session\<close>

text \<open>
  The states of the prompt that a session reaches: start-up leaves the first one; from
  then on keys change the editor's line, the Tab key runs \<open>complete\<close>, and input on
  the terminal runs \<open>on_stdin_ready\<close>.
\<close>

inductive reachable :: "shell \<Rightarrow> bool" where
  startup: "ev_application_startup None no_matrix matrix_commands prompt_commands saved = Inr s
              \<Longrightarrow> reachable s"
| keys: "reachable s \<Longrightarrow> reachable (s\<lparr>el := e\<rparr>)"
| tab: "reachable s \<Longrightarrow> complete s t = Inr (ret, s') \<Longrightarrow> reachable s'"
| line: "reachable s \<Longrightarrow> on_stdin_ready s t = Inr s' \<Longrightarrow> reachable s'"

text \<open>
  The user types \<open>line\<close> and the Enter key; \<open>av\<close> are the words of the line, and
  the cursor is at the end of the last one.
\<close>

definition submit :: "shell \<Rightarrow> string \<Rightarrow> string list \<Rightarrow> fault + shell" where
  "submit s line av =
     on_stdin_ready (s\<lparr>el := \<lparr>buffer = line @ [newline], cursor = Suc (length line)\<rparr>\<rparr>)
       (Tok_Ok av (length av - 1) (if av = [] then 0 else length (last av)))"

text \<open>Lines submitted one after the other, up to the first fault.\<close>

fun submit_all :: "shell \<Rightarrow> (string \<times> string list) list \<Rightarrow> fault + shell" where
  "submit_all s [] = Inr s"
| "submit_all s ((line, av) # rest) =
     (case submit s line av of Inl f \<Rightarrow> Inl f | Inr s' \<Rightarrow> submit_all s' rest)"

subsection \<open>Notions used in the properties\<close>

text \<open>A word that begins with the command marker.\<close>

definition begins_with_marker :: "string \<Rightarrow> bool" where
  "begins_with_marker word = (case word of [] \<Rightarrow> False | w0 # rest \<Rightarrow> w0 = marker)"

text \<open>
  A completion request that cannot complete: \<open>CC_ERROR\<close>, with nothing printed, nothing
  inserted and no completer called; the tokenizer is reset.
\<close>

definition unable_to_complete :: "shell \<Rightarrow> fault + cc_ret \<times> shell" where
  "unable_to_complete s = Inr (CC_ERROR, s\<lparr>tok_dirty := False\<rparr>)"

text \<open>The registered commands whose names begin with \<open>partial\<close>, each with the marker.\<close>

definition prefix_candidates :: "EvCmd list \<Rightarrow> string \<Rightarrow> string list" where
  "prefix_candidates cmds partial =
     map (\<lambda>c. marker # name c) (filter (\<lambda>c. prefix partial (name c)) cmds)"


definition unknown_command :: "string \<Rightarrow> string" where
  "unknown_command command =
     [newline] @ ''Unknown command '' @ [apostrophe] @ command @ [apostrophe] @ [newline]"

text \<open>Text between the escape sequences for a red and for the default foreground.\<close>

definition red :: "string \<Rightarrow> string" where
  "red text = [escape] @ ''[31m'' @ text @ [escape] @ ''[39m''"

text \<open>A history store as \<open>ev_prompt_init\<close> configures it, within its size.\<close>

definition configured :: "History \<Rightarrow> bool" where
  "configured h = (hsize h = 100 \<and> unique h \<and> length (events h) \<le> 100)"

subsection \<open>An example registry\<close>

text \<open>
  A registry with the commands \<open>room-details\<close> (one option, whose completer returns
  one room), \<open>room-get-event\<close> (two options, the second without completer), \<open>help\<close>,
  \<open>history\<close>, \<open>quit\<close> and \<open>remove-pusher\<close> (whose handler fails), and a prompt
  after start-up with a given line and cursor.
\<close>

definition example_room_completion :: EvCmdOptCompl where
  "example_room_completion word pos = Some [''!abc:example.org'']"

definition example_room_opt :: EvCmdOpt where
  "example_room_opt =
     \<lparr>opt_name = ''room-id'', desc = ''The id of the room'', flags = EV_CMD_OPT_FLAG_NONE,
      completer = Some example_room_completion\<rparr>"

definition example_event_opt :: EvCmdOpt where
  "example_event_opt =
     \<lparr>opt_name = ''event-id'', desc = ''The id of the event'', flags = EV_CMD_OPT_FLAG_NONE,
      completer = None\<rparr>"

text \<open>The first option of \<open>room-get-event\<close>, an entry of its own as in the tables.\<close>

definition example_event_room_opt :: EvCmdOpt where
  "example_event_room_opt =
     \<lparr>opt_name = ''room-id'', desc = ''The id of the room to get the event for'',
      flags = EV_CMD_OPT_FLAG_NONE, completer = Some example_room_completion\<rparr>"

definition example_func :: EvCmdFunc where
  "example_func args = (Some [], None)"

definition example_failing_func :: EvCmdFunc where
  "example_failing_func args = (None, Some ''Invalid pusher id'')"

definition example_cmd :: "string \<Rightarrow> EvCmdFunc \<Rightarrow> EvCmdOpt list option \<Rightarrow> EvCmd" where
  "example_cmd n f os = \<lparr>name = n, help_summary = [], func = f, opts = os\<rparr>"

definition example_commands :: "EvCmd list" where
  "example_commands =
     [example_cmd ''room-details'' example_func (Some [example_room_opt]),
      example_cmd ''room-get-event'' example_func
        (Some [example_event_room_opt, example_event_opt]),
      example_cmd ''help'' example_func None,
      example_cmd ''history'' example_func None,
      example_cmd ''quit'' example_func None,
      example_cmd ''remove-pusher'' example_failing_func None]"

definition example_shell :: "string \<Rightarrow> nat \<Rightarrow> shell" where
  "example_shell line cur =
     \<lparr>commands = example_commands, el = \<lparr>buffer = line, cursor = cur\<rparr>,
      hist = \<lparr>events = [], hsize = 100, unique = True\<rparr>, tok_dirty = False,
      stdout = [], critical = [], completer_calls = [], func_calls = [], el_inits = 1\<rparr>"

text \<open>The same prompt with the events \<open>es\<close> in its history store.\<close>

definition example_shell_with :: "string list \<Rightarrow> string \<Rightarrow> nat \<Rightarrow> shell" where
  "example_shell_with es line cur =
     (example_shell line cur)\<lparr>hist := \<lparr>events = es, hsize = 100, unique = True\<rparr>\<rparr>"

text \<open>
  A history file of 100 lines, \<open>/help\<close> and \<open>/quit\<close> in turn, and the prompt that
  start-up leaves when it finds this file.
\<close>

definition example_saved :: "string list" where
  "example_saved = concat (replicate 50 [''/help'' @ [newline], ''/quit'' @ [newline]])"

definition example_full_shell :: shell where
  "example_full_shell = example_shell_with example_saved [] 0"

section \<open>Properties\<close>

lemmas example_defs = example_shell_def example_commands_def example_cmd_def
  example_func_def example_failing_func_def example_event_opt_def example_room_opt_def
  example_event_room_opt_def example_room_completion_def

lemmas state_defs = reset_def tok_reset_def el_init_def out_def marker_def newline_def

subsection \<open>Comparing and looking up\<close>

lemma strncmp_zero_iff: "strncmp s1 s2 n = 0 \<longleftrightarrow> take n s1 = take n s2"
  by (induction s1 s2 n rule: strncmp.induct) auto

lemma take_eq_prefix:
  "n \<le> length w \<Longrightarrow> n \<le> length nm \<Longrightarrow> take n nm = take n w \<longleftrightarrow> prefix (take n w) nm"
  by (metis append_take_drop_id length_take min.absorb2 prefix_def append_eq_conv_conj take_is_prefix)

lemma prefix_too_long: "length nm < n \<Longrightarrow> n \<le> length w \<Longrightarrow> \<not> prefix (take n w) nm"
  by (auto dest: prefix_length_le)

lemma command_matches_filter:
  "0 \<le> pos \<Longrightarrow> nat pos \<le> length word \<Longrightarrow>
   command_matches cmds word pos =
     map (\<lambda>c. marker # name c) (filter (\<lambda>c. prefix (take (nat pos) word) (name c)) cmds)"
proof (induction cmds)
  case Nil
  then show ?case by simp
next
  case (Cons c cs)
  show ?case
  proof (cases "length (name c) < nat pos")
    case True
    with Cons show ?thesis
      by (simp add: exceeds_strlen_def prefix_too_long)
  next
    case False
    with Cons show ?thesis
      by (simp add: exceeds_strlen_def strncmp_zero_iff take_eq_prefix)
  qed
qed

text \<open>With the cursor in front of the marker no command is a candidate.\<close>

lemma command_matches_negative: "pos < 0 \<Longrightarrow> command_matches cmds word pos = []"
  by (induction cmds) (auto simp: exceeds_strlen_def)

lemma complete_command_before_marker: "complete_command cmds (marker # rest) 0 = Some []"
  by (simp add: complete_command_def command_matches_negative)

lemma ev_cmds_get_find: "ev_cmds_get cmds command = find (\<lambda>c. name c = command) cmds"
  by (induction cmds) auto

lemma ev_cmds_get_Some_name:
  "ev_cmds_get cmds command = Some c \<Longrightarrow> name c = command \<and> c \<in> set cmds"
  by (induction cmds) (auto split: if_splits)

lemma ev_cmds_get_None_iff: "ev_cmds_get cmds command = None \<longleftrightarrow> command \<notin> name ` set cmds"
  by (induction cmds) auto

lemma opts_scan_nth:
  "opts_scan os i num = (if i \<le> num \<and> num - i < length os then Some (os ! (num - i)) else None)"
proof (induction os arbitrary: i)
  case Nil
  then show ?case by simp
next
  case (Cons opt rest)
  show ?case
  proof (cases "i = num")
    case True
    then show ?thesis by simp
  next
    case False
    then show ?thesis
      using Cons [of "Suc i"] by (auto simp: nth_Cons' Suc_diff_Suc)
  qed
qed

subsection \<open>Completion of command names\<close>

text \<open>
  C1, amended. The line is the single word \<open>word\<close>, which begins with the marker, and
  the cursor is in that word behind the marker, at offset \<open>co \<ge> 1\<close>. The partial text
  is what stands between the marker and the cursor. The candidates that
  \<open>complete_command\<close> returns are exactly the registered commands, in the order of the
  registry and each with the marker in front, whose names have the partial text as a
  prefix; the comparison covers the length of the partial text, so that with an empty
  partial text every command is a candidate. \<open>complete\<close> hands exactly these
  candidates, with the offset, to \<open>print_or_insert_completions\<close>.
\<close>

theorem complete_command_name:
  assumes "word = marker # rest" and "1 \<le> co" and "co \<le> length word"
  shows "complete_command (commands s) word (int co) =
           Some (prefix_candidates (commands s) (take (co - 1) rest)) \<and>
         complete s (Tok_Ok [word] 0 co) =
           out (print_or_insert_completions (s\<lparr>tok_dirty := True\<rparr>)
                  (Some (prefix_candidates (commands s) (take (co - 1) rest))) (int co))"
proof -
  have pos: "0 \<le> int co - 1" "nat (int co - 1) = co - 1" "co - 1 \<le> length rest"
    using assms by auto
  have "complete_command (commands s) word (int co) =
          Some (prefix_candidates (commands s) (take (co - 1) rest))"
    using assms(1) pos command_matches_filter [of "int co - 1" rest "commands s"]
    by (simp add: complete_command_def prefix_candidates_def)
  then show ?thesis
    by (simp add: complete_def)
qed

theorem complete_command_name_witness:
  "complete_command example_commands ''/h'' 2 = Some [''/help'', ''/history''] \<and>
   complete (example_shell ''/h'' 2) (Tok_Ok [''/h''] 0 2) =
     Inr (CC_REDISPLAY,
       (example_shell ''/h'' 2)\<lparr>stdout := [newline] @ ''/help /history '' @ [newline]\<rparr>)"
  using complete_command_name [of "''/h''" "''h''" 2 "example_shell ''/h'' 2"]
  by (simp add: example_defs marker_def prefix_candidates_def out_def tok_reset_def
      print_or_insert_completions_def)

text \<open>
  With the cursor in the word \<open>/h\<close> at offset 0, in front of the marker, nothing has
  been typed behind the marker and every registered name has that empty text as a
  prefix, but there is no candidate and the request cannot complete.
\<close>

theorem cursor_before_marker_counterexample:
  "prefix_candidates example_commands [] =
     [''/room-details'', ''/room-get-event'', ''/help'', ''/history'', ''/quit'',
      ''/remove-pusher''] \<and>
   complete_command example_commands ''/h'' 0 = Some [] \<and>
   complete (example_shell ''/h'' 0) (Tok_Ok [''/h''] 0 0) =
     Inr (CC_ERROR, example_shell ''/h'' 0)"
  by (simp add: complete_def complete_command_def exceeds_strlen_def prefix_candidates_def
      print_or_insert_completions_def example_defs state_defs)

text \<open>
  A request for a command name on a line without the marker: the cursor is in the first
  word of the line or the line has no word, and the first word, if there is one, does
  not begin with the marker. \<open>complete_command\<close> returns no candidates for the
  partial word (the first word, or the empty string on a line without words), and the
  request cannot complete: \<open>CC_ERROR\<close>, nothing printed, nothing inserted.
\<close>

lemma complete_without_marker:
  assumes "av = [] \<or> \<not> begins_with_marker (hd av)"
  shows "complete_command (commands s) (if av = [] then [] else hd av) (int co) = None \<and>
         complete s (Tok_Ok av 0 co) = unable_to_complete s"
proof -
  have none: "complete_command (commands s) (if av = [] then [] else hd av) (int co) = None"
    using assms
    by (auto simp: complete_command_def begins_with_marker_def split: list.splits)
  have "complete s (Tok_Ok av 0 co) = unable_to_complete s"
  proof (cases "length av < 2")
    case True
    then have "(if length av \<le> 0 then [] else av ! 0) = (if av = [] then [] else hd av)"
      by (cases av) auto
    with True none show ?thesis
      by (simp add: complete_def print_or_insert_completions_def out_def tok_reset_def
          unable_to_complete_def)
  next
    case False
    then show ?thesis
      by (simp add: complete_def out_def tok_reset_def unable_to_complete_def)
  qed
  with none show ?thesis by simp
qed

text \<open>
  C10, where the code departs from it. The line is \<open>xroom-details !\<close>, whose first
  word does not begin with the marker, and the cursor is behind the second word. The
  request should report that it cannot complete and change nothing. Instead
  \<open>complete\<close> skips the first character of the first word without looking at it,
  finds the command \<open>room-details\<close>, calls the completer of its option and inserts
  the rest of the room with a space (\<open>CC_REFRESH\<close>); the same request with the cursor
  in the first word cannot complete.
\<close>

theorem unchecked_marker_completes:
  "\<not> begins_with_marker ''xroom-details'' \<and>
   complete (example_shell ''xroom-details !'' 15) (Tok_Ok [''xroom-details'', ''!''] 1 1) =
     Inr (CC_REFRESH,
       (example_shell ''xroom-details !'' 15)
         \<lparr>el := \<lparr>buffer = ''xroom-details !abc:example.org '', cursor = 31\<rparr>,
          completer_calls := [(example_room_opt, ''!'', 1)]\<rparr>) \<and>
   complete (example_shell ''xroom-details !'' 4) (Tok_Ok [''xroom-details'', ''!''] 0 4) =
     Inr (CC_ERROR, example_shell ''xroom-details !'' 4)"
  by (simp add: complete_def ev_cmd_get_opt_def begins_with_marker_def
      print_or_insert_completions_def el_insertstr_def example_defs state_defs)

subsection \<open>Completion of options\<close>

text \<open>
  C2. The cursor is in the word of index \<open>cc \<ge> 1\<close> and the first word is the marker
  followed by \<open>command\<close>. If a registered command has the name \<open>command\<close> and the
  first such command of the registry has an option at position \<open>cc - 1\<close> with a
  completer, that completer is called, once, with the word the cursor is in (the empty
  string behind the last word) and the cursor's offset in it, no other completer is
  called, and what it returns goes to \<open>print_or_insert_completions\<close> as it is. If no
  registered command has that name, or the command has no options or no option at
  that position, or the option has no completer, no completer is called and the
  request cannot complete.
\<close>

theorem complete_option:
  assumes "1 \<le> cc" and "av = (marker # command) # rest"
  shows "complete s (Tok_Ok av cc co) =
           (case find (\<lambda>c. name c = command) (commands s) of
              None \<Rightarrow> unable_to_complete s
            | Some cmd \<Rightarrow>
                (case opts cmd of
                   None \<Rightarrow> unable_to_complete s
                 | Some os \<Rightarrow>
                     if length os \<le> cc - 1 then unable_to_complete s
                     else
                       (case completer (os ! (cc - 1)) of
                          None \<Rightarrow> unable_to_complete s
                        | Some f \<Rightarrow>
                            (let match = (if length av \<le> cc then [] else av ! cc) in
                               out (print_or_insert_completions
                                      (s\<lparr>tok_dirty := True,
                                         completer_calls := completer_calls s @
                                           [(os ! (cc - 1), match, int co)]\<rparr>)
                                      (f match (int co)) (int co))))))"
proof -
  have "ev_cmds_get (commands s) command = find (\<lambda>c. name c = command) (commands s)"
    by (rule ev_cmds_get_find)
  with assms show ?thesis
    by (simp add: complete_def ev_cmd_get_opt_def opts_scan_nth out_def tok_reset_def
        unable_to_complete_def Let_def split: option.splits)
qed

theorem complete_option_witness:
  "complete (example_shell ''/room-get-event !'' 17) (Tok_Ok [''/room-get-event'', ''!''] 1 1) =
     Inr (CC_REFRESH,
       (example_shell ''/room-get-event !'' 17)
         \<lparr>el := \<lparr>buffer = ''/room-get-event !abc:example.org '', cursor = 33\<rparr>,
          completer_calls := [(example_event_room_opt, ''!'', 1)]\<rparr>) \<and>
   complete (example_shell ''/room-get-event !a $'' 20)
       (Tok_Ok [''/room-get-event'', ''!a'', ''$''] 2 1) =
     Inr (CC_ERROR, example_shell ''/room-get-event !a $'' 20) \<and>
   complete (example_shell ''/quit now'' 9) (Tok_Ok [''/quit'', ''now''] 1 3) =
     Inr (CC_ERROR, example_shell ''/quit now'' 9) \<and>
   complete (example_shell ''/bogus !'' 8) (Tok_Ok [''/bogus'', ''!''] 1 1) =
     Inr (CC_ERROR, example_shell ''/bogus !'' 8)"
  using
    complete_option [of 1 "[''/room-get-event'', ''!'']" "''room-get-event''" "[''!'']"
      "example_shell ''/room-get-event !'' 17" 1]
    complete_option [of 2 "[''/room-get-event'', ''!a'', ''$'']" "''room-get-event''"
      "[''!a'', ''$'']" "example_shell ''/room-get-event !a $'' 20" 1]
    complete_option [of 1 "[''/quit'', ''now'']" "''quit''" "[''now'']"
      "example_shell ''/quit now'' 9" 3]
    complete_option [of 1 "[''/bogus'', ''!'']" "''bogus''" "[''!'']"
      "example_shell ''/bogus !'' 8" 1]
  by (simp add: example_defs marker_def unable_to_complete_def out_def tok_reset_def
      print_or_insert_completions_def el_insertstr_def)

subsection \<open>Printing or inserting the candidates\<close>





subsection \<open>Running a command\<close>

lemma run_command_loop_get:
  "run_command_loop cmds s command args =
     (case ev_cmds_get cmds command of
        None \<Rightarrow> s\<lparr>stdout := stdout s @ unknown_command command\<rparr>
      | Some c \<Rightarrow>
          s\<lparr>func_calls := func_calls s @ [(c, args)],
            stdout := stdout s @ render (func c args)\<rparr>)"
  by (induction cmds) (auto simp: unknown_command_def)

text \<open>
  C8. The first word of the line is the marker followed by the name of a registered
  command, whose handler is called with the other words. If it returns no buffer and
  has set an error, the message of the error is printed in red; if it returns no
  buffer and has set no error, the notice of an internal error is printed in red
  instead; if it returns an empty buffer, nothing is printed.
\<close>

theorem run_command_renders:
  assumes "ev_cmds_get (commands s) command = Some cmd"
  shows "run_command s ((marker # command) # args) =
           Inr (s\<lparr>func_calls := func_calls s @ [(cmd, args)],
                  stdout := stdout s @
                    (case func cmd args of
                       (None, Some message) \<Rightarrow>
                         red (''Command failed: '' @ message @ [newline])
                     | (None, None) \<Rightarrow>
                         red (''Internal error - Command failed to set error'' @ [newline])
                     | (Some str, err) \<Rightarrow>
                         if str = [] then [] else [newline] @ str @ [newline])\<rparr>)"
  using assms
  by (auto simp: run_command_def run_command_loop_get render_def red_def
      split: option.splits prod.splits)

theorem run_command_renders_witness:
  "run_command (example_shell (''/remove-pusher 7'' @ [newline]) 17) [''/remove-pusher'', ''7''] =
     Inr ((example_shell (''/remove-pusher 7'' @ [newline]) 17)
            \<lparr>func_calls := [(example_cmd ''remove-pusher'' example_failing_func None, [''7''])],
             stdout := red (''Command failed: Invalid pusher id'' @ [newline])\<rparr>)"
  using run_command_renders [of "example_shell (''/remove-pusher 7'' @ [newline]) 17"
      "''remove-pusher''" "example_cmd ''remove-pusher'' example_failing_func None" "[''7'']"]
  by (simp add: example_defs marker_def)

subsection \<open>A submitted line\<close>

lemma history_enter_last:
  assumes "0 < hsize h"
  shows "last (events (history_enter h str)) = str"
proof (cases "unique h \<and> events h \<noteq> [] \<and> last (events h) = str")
  case True
  then show ?thesis by (simp add: history_enter_def)
next
  case False
  from assms have "Suc (length (events h)) - hsize h \<le> length (events h)"
    by arith
  with False show ?thesis
    by (auto simp: history_enter_def)
qed

lemma history_enter_events:
  assumes "configured h"
  shows "events (history_enter h str) =
           (if events h \<noteq> [] \<and> last (events h) = str then events h
            else if length (events h) < 100 then events h @ [str]
            else tl (events h) @ [str])"
proof (cases "events h \<noteq> [] \<and> last (events h) = str")
  case True
  with assms show ?thesis by (simp add: history_enter_def configured_def)
next
  case other: False
  show ?thesis
  proof (cases "length (events h) < 100")
    case True
    with other assms show ?thesis
      by (auto simp: history_enter_def configured_def)
  next
    case False
    with assms have full: "length (events h) = 100"
      by (simp add: configured_def)
    with other assms show ?thesis
      by (cases "events h") (auto simp: history_enter_def configured_def)
  qed
qed

lemma history_enter_same_iff:
  assumes "configured h"
  shows "history_enter h str = h \<longleftrightarrow> events h \<noteq> [] \<and> last (events h) = str"
proof
  assume same: "history_enter h str = h"
  show "events h \<noteq> [] \<and> last (events h) = str"
  proof (rule ccontr)
    assume other: "\<not> (events h \<noteq> [] \<and> last (events h) = str)"
    from assms have "0 < hsize h" by (simp add: configured_def)
    then have "last (events (history_enter h str)) = str"
      by (rule history_enter_last)
    moreover from other history_enter_events [OF assms, of str]
    have "events (history_enter h str) \<noteq> []" by auto
    ultimately show False using same other by auto
  qed
next
  assume "events h \<noteq> [] \<and> last (events h) = str"
  with assms show "history_enter h str = h"
    by (simp add: history_enter_def configured_def)
qed

lemma on_stdin_ready_without_marker:
  assumes "buffer (el s) = line @ [newline]" and "av = [] \<or> \<not> begins_with_marker (hd av)"
  shows "on_stdin_ready s (Tok_Ok av cc co) =
           Inr (reset (s\<lparr>tok_dirty := True,
                         hist := (if line = [] then hist s
                                  else history (hist s) (H_ENTER (line @ [newline])))\<rparr>))"
  using assms
  by (cases av) (auto simp: on_stdin_ready_def begins_with_marker_def split: list.splits)

lemma on_stdin_ready_with_marker:
  assumes "buffer (el s) = line @ [newline]" and "line \<noteq> []"
  shows "on_stdin_ready s (Tok_Ok ((marker # command) # args) cc co) =
           Inr (reset (run_command_loop (commands s)
                  (s\<lparr>tok_dirty := True,
                     hist := history (hist s) (H_ENTER (line @ [newline]))\<rparr>) command args))"
  using assms
  by (simp add: on_stdin_ready_def run_command_def)

lemma hist_reset: "hist (reset s) = hist s"
  by (simp add: reset_def tok_reset_def)

lemma hist_run_command_loop: "hist (run_command_loop cmds s command args) = hist s"
  by (induction cmds) auto

text \<open>
  C7. The submitted line has at least one character before its newline, its first word
  is the marker followed by \<open>command\<close>, and no registered command has that name. Then
  the message naming \<open>command\<close> as unknown is printed, no handler is called, the
  editor is reset, and the line has been entered into the history store, where (the
  store having room for at least one event) it is the most recent event.
\<close>

theorem unknown_command_dispatch:
  assumes "buffer (el s) = line @ [newline]" and "line \<noteq> []"
    and "command \<notin> name ` set (commands s)" and "0 < hsize (hist s)"
  shows "on_stdin_ready s (Tok_Ok ((marker # command) # args) cc co) =
           Inr (reset (s\<lparr>tok_dirty := True,
                         hist := history (hist s) (H_ENTER (line @ [newline])),
                         stdout := stdout s @ unknown_command command\<rparr>)) \<and>
         last (events (history (hist s) (H_ENTER (line @ [newline])))) = line @ [newline]"
proof -
  from assms(3) have "ev_cmds_get (commands s) command = None"
    by (simp add: ev_cmds_get_None_iff)
  with assms(1,2) have
    "on_stdin_ready s (Tok_Ok ((marker # command) # args) cc co) =
       Inr (reset (s\<lparr>tok_dirty := True,
                     hist := history (hist s) (H_ENTER (line @ [newline])),
                     stdout := stdout s @ unknown_command command\<rparr>))"
    by (simp add: on_stdin_ready_with_marker run_command_loop_get)
  with assms(4) show ?thesis
    by (simp add: history_enter_last)
qed

theorem unknown_command_dispatch_witness:
  "on_stdin_ready (example_shell (''/bogus'' @ [newline]) 7) (Tok_Ok [''/bogus''] 0 6) =
     Inr ((example_shell [] 0)
            \<lparr>hist := \<lparr>events = [''/bogus'' @ [newline]], hsize = 100, unique = True\<rparr>,
             stdout := unknown_command ''bogus'', el_inits := 2\<rparr>)"
  using unknown_command_dispatch [of "example_shell (''/bogus'' @ [newline]) 7" "''/bogus''"
      "''bogus''" "[]" 0 6]
  by (simp add: example_defs history_enter_def reset_def tok_reset_def el_init_def marker_def)

text \<open>
  C4, amended. \<open>tok_line\<close> has split the submitted line into words, and the line has
  no word or a first word that does not begin with the marker. Then no handler is
  called and nothing is printed, and the editor is reset. The line is not kept out of
  the history: unless it is empty, it is entered into the history store like any other
  line. So the store, configured as start-up leaves it, stays as it is exactly if the
  line is empty or is equal to the most recent event.
\<close>

theorem line_without_marker:
  assumes "buffer (el s) = line @ [newline]" and "av = [] \<or> \<not> begins_with_marker (hd av)"
    and "configured (hist s)"
  shows "on_stdin_ready s (Tok_Ok av cc co) =
           Inr (reset (s\<lparr>tok_dirty := True,
                         hist := (if line = [] then hist s
                                  else history (hist s) (H_ENTER (line @ [newline])))\<rparr>)) \<and>
         ((if line = [] then hist s else history (hist s) (H_ENTER (line @ [newline]))) = hist s
            \<longleftrightarrow> line = [] \<or>
                events (hist s) \<noteq> [] \<and> last (events (hist s)) = line @ [newline])"
  using on_stdin_ready_without_marker [OF assms(1,2)] history_enter_same_iff [OF assms(3)]
  by simp

theorem line_without_marker_witness:
  "on_stdin_ready (example_shell [newline] 1) (Tok_Ok [] 0 0) =
     Inr ((example_shell [] 0)\<lparr>el_inits := 2\<rparr>) \<and>
   on_stdin_ready (example_shell_with [''/quit'' @ [newline]] (''hello'' @ [newline]) 6)
       (Tok_Ok [''hello''] 0 5) =
     Inr ((example_shell_with [''/quit'' @ [newline], ''hello'' @ [newline]] [] 0)
            \<lparr>el_inits := 2\<rparr>) \<and>
   on_stdin_ready
       (example_shell_with [''/quit'' @ [newline], ''hello'' @ [newline]]
          (''hello'' @ [newline]) 6)
       (Tok_Ok [''hello''] 0 5) =
     Inr ((example_shell_with [''/quit'' @ [newline], ''hello'' @ [newline]] [] 0)
            \<lparr>el_inits := 2\<rparr>)"
  using
    line_without_marker [of "example_shell [newline] 1" "[]" "[]" 0 0]
    line_without_marker [of "example_shell_with [''/quit'' @ [newline]] (''hello'' @ [newline]) 6"
      "''hello''" "[''hello'']" 0 5]
    line_without_marker
      [of "example_shell_with [''/quit'' @ [newline], ''hello'' @ [newline]]
             (''hello'' @ [newline]) 6" "''hello''" "[''hello'']" 0 5]
  by (simp add: example_shell_with_def example_defs configured_def begins_with_marker_def
      history_enter_def state_defs)

text \<open>
  The line \<open>hello\<close> does not begin with the marker; submitted to a prompt with an
  empty history store, it is the one event of the store afterwards. The line
  \<open>"hello\<close>, with a quote that is not closed, does not begin with the marker either;
  \<open>tok_line\<close> returns a positive value for it, and \<open>on_stdin_ready\<close> reads the words
  it has not been given instead of resetting the editor.
\<close>

theorem line_without_marker_counterexample:
  "\<not> begins_with_marker ''hello'' \<and>
   events (hist (example_shell (''hello'' @ [newline]) 6)) = [] \<and>
   on_stdin_ready (example_shell (''hello'' @ [newline]) 6) (Tok_Ok [''hello''] 0 5) =
     Inr ((example_shell [] 0)
            \<lparr>hist := \<lparr>events = [''hello'' @ [newline]], hsize = 100, unique = True\<rparr>,
             el_inits := 2\<rparr>) \<and>
   on_stdin_ready (example_shell (CHR 0x22 # ''hello'' @ [newline]) 7) Tok_Unmatched =
     Inl Uninitialised_Read"
  by (simp add: on_stdin_ready_def begins_with_marker_def history_enter_def example_defs
      state_defs)

text \<open>
  C5, amended. For every submitted line that \<open>tok_line\<close> has split into words,
  \<open>on_stdin_ready\<close> returns. Recording is skipped, and the store stays as it is, if the
  line is empty. A line with at least one character before its newline, a single
  character included, is entered into the history store together with its newline: in
  the store, configured as start-up leaves it, it becomes the most recent event, the
  oldest event being dropped from a full store, unless it is equal to the most recent
  event, in which case the store stays as it is.
\<close>

theorem history_recording:
  assumes "buffer (el s) = line @ [newline]" and "configured (hist s)"
  shows "\<exists>s'. on_stdin_ready s (Tok_Ok av cc co) = Inr s' \<and>
              hist s' = (if line = [] then hist s
                         else history (hist s) (H_ENTER (line @ [newline]))) \<and>
              events (hist s') =
                (if line = [] \<or>
                    events (hist s) \<noteq> [] \<and> last (events (hist s)) = line @ [newline]
                 then events (hist s)
                 else if length (events (hist s)) < 100
                   then events (hist s) @ [line @ [newline]]
                 else tl (events (hist s)) @ [line @ [newline]])"
proof -
  have "\<exists>s'. on_stdin_ready s (Tok_Ok av cc co) = Inr s' \<and>
              hist s' = (if line = [] then hist s
                         else history (hist s) (H_ENTER (line @ [newline])))"
  proof (cases "av = [] \<or> \<not> begins_with_marker (hd av)")
    case True
    from on_stdin_ready_without_marker [OF assms(1) True] show ?thesis
      by (simp add: hist_reset)
  next
    case False
    then obtain command args where "av = (marker # command) # args"
      by (cases av) (auto simp: begins_with_marker_def split: list.splits)
    with assms(1) show ?thesis
      by (simp add: on_stdin_ready_def run_command_def hist_reset hist_run_command_loop)
  qed
  then obtain s' where s': "on_stdin_ready s (Tok_Ok av cc co) = Inr s'"
    "hist s' = (if line = [] then hist s else history (hist s) (H_ENTER (line @ [newline])))"
    by blast
  from s'(2) history_enter_events [OF assms(2), of "line @ [newline]"]
  have "events (hist s') =
          (if line = [] \<or>
              events (hist s) \<noteq> [] \<and> last (events (hist s)) = line @ [newline]
           then events (hist s)
           else if length (events (hist s)) < 100
             then events (hist s) @ [line @ [newline]]
           else tl (events (hist s)) @ [line @ [newline]])"
    by auto
  with s' show ?thesis by blast
qed

theorem history_recording_witness:
  "on_stdin_ready (example_shell_with [''/quit'' @ [newline]] (''x'' @ [newline]) 2)
       (Tok_Ok [''x''] 0 1) =
     Inr ((example_shell_with [''/quit'' @ [newline], ''x'' @ [newline]] [] 0)
            \<lparr>el_inits := 2\<rparr>) \<and>
   on_stdin_ready
       (example_shell_with [''x'' @ [newline], ''/quit'' @ [newline]] (''/quit'' @ [newline]) 6)
       (Tok_Ok [''/quit''] 0 5) =
     Inr ((example_shell_with [''x'' @ [newline], ''/quit'' @ [newline]] [] 0)
            \<lparr>func_calls := [(example_cmd ''quit'' example_func None, [])], el_inits := 2\<rparr>) \<and>
   on_stdin_ready (example_shell_with [''x'' @ [newline]] [newline] 1) (Tok_Ok [] 0 0) =
     Inr ((example_shell_with [''x'' @ [newline]] [] 0)\<lparr>el_inits := 2\<rparr>)"
  using
    history_recording [of "example_shell_with [''/quit'' @ [newline]] (''x'' @ [newline]) 2"
      "''x''" "[''x'']" 0 1]
    history_recording
      [of "example_shell_with [''x'' @ [newline], ''/quit'' @ [newline]]
             (''/quit'' @ [newline]) 6" "''/quit''" "[''/quit'']" 0 5]
    history_recording [of "example_shell_with [''x'' @ [newline]] [newline] 1" "[]" "[]" 0 0]
  by (simp add: on_stdin_ready_def run_command_def render_def history_enter_def
      example_shell_with_def example_defs state_defs)

text \<open>
  The line \<open>x\<close> consists of a single character; submitted to a prompt with an empty
  history store, it is the one event of the store afterwards.
\<close>

theorem single_character_counterexample:
  "events (hist (example_shell (''x'' @ [newline]) 2)) = [] \<and>
   on_stdin_ready (example_shell (''x'' @ [newline]) 2) (Tok_Ok [''x''] 0 1) =
     Inr ((example_shell [] 0)
            \<lparr>hist := \<lparr>events = [''x'' @ [newline]], hsize = 100, unique = True\<rparr>,
             el_inits := 2\<rparr>)"
  by (simp add: on_stdin_ready_def history_enter_def example_defs state_defs)

subsection \<open>Registration\<close>

lemma ev_prompt_add_commands_append: "ev_prompt_add_commands table cmds = cmds @ table"
  by (induction table arbitrary: cmds) auto

lemma ev_matrix_add_commands_append: "ev_matrix_add_commands table cmds = cmds @ table"
  by (induction table arbitrary: cmds) auto

text \<open>
  C9, amended. Registration does not compare names. Whatever the tables of the matrix
  module and of the prompt hold, start-up of a prompt that has not been initialised
  before completes, and the registry then holds every entry of the matrix table (unless
  the matrix module is disabled) followed by every entry of the prompt table, entries
  with the same name included.
\<close>

theorem startup_registers_all:
  "\<exists>s. ev_application_startup None no_matrix matrix_commands prompt_commands saved = Inr s \<and>
        commands s = (if no_matrix then [] else matrix_commands) @ prompt_commands"
  by (simp add: ev_application_startup_def ev_prompt_init_def reset_def tok_reset_def
      ev_prompt_add_commands_append ev_matrix_add_commands_append Let_def)

theorem startup_registers_all_witness:
  "map_sum id commands
     (ev_application_startup None False
        [example_cmd ''help'' example_func (Some [example_room_opt])]
        [example_cmd ''help'' example_func None, example_cmd ''quit'' example_func None] None) =
   Inr [example_cmd ''help'' example_func (Some [example_room_opt]),
        example_cmd ''help'' example_func None, example_cmd ''quit'' example_func None]"
  using startup_registers_all
    [of False "[example_cmd ''help'' example_func (Some [example_room_opt])]"
      "[example_cmd ''help'' example_func None, example_cmd ''quit'' example_func None]" None]
  by auto

text \<open>
  A prompt table with two commands of the name \<open>help\<close>: start-up completes with both
  in the registry.
\<close>

theorem same_name_counterexample:
  "name (example_cmd ''help'' example_func None) =
     name (example_cmd ''help'' example_failing_func None) \<and>
   map_sum id commands
     (ev_application_startup None True []
        [example_cmd ''help'' example_func None, example_cmd ''help'' example_failing_func None]
        None) =
   Inr [example_cmd ''help'' example_func None, example_cmd ''help'' example_failing_func None]"
  by (simp add: ev_application_startup_def ev_prompt_init_def reset_def tok_reset_def
      example_cmd_def)

subsection \<open>The history store during a session\<close>

lemma configured_enter: "configured h \<Longrightarrow> configured (history_enter h str)"
  by (auto simp: configured_def history_enter_def)

lemma configured_load: "configured h \<Longrightarrow> configured (foldl history_enter h ls)"
  by (induction ls arbitrary: h) (auto simp: configured_enter)

lemma configured_init:
  assumes "ev_prompt_init None cmds saved = Inr s"
  shows "configured (hist s)"
proof -
  have "configured (history (history history_init (H_SETSIZE 100)) (H_SETUNIQUE 1))"
    by (simp add: configured_def history_init_def)
  with assms show ?thesis
    by (auto simp: ev_prompt_init_def Let_def configured_load hist_reset split: option.splits)
qed

lemma hist_print_or_insert:
  "print_or_insert_completions s completions pos = Inr (ret, s') \<Longrightarrow> hist s' = hist s"
  by (auto simp: print_or_insert_completions_def split: option.splits list.splits if_splits)

lemma hist_out: "out r = Inr (ret, s') \<Longrightarrow> \<exists>s''. r = Inr (ret, s'') \<and> hist s' = hist s''"
  by (auto simp: out_def tok_reset_def split: sum.splits)

lemma hist_complete:
  assumes "complete s t = Inr (ret, s')"
  shows "hist s' = hist s"
proof (cases t)
  case Tok_Error
  with assms show ?thesis by (auto simp: complete_def)
next
  case (Tok_Ok av cc co)
  with assms show ?thesis
    by (auto simp: complete_def Let_def split: if_splits list.splits option.splits
        dest!: hist_out dest: hist_print_or_insert)
next
  case Tok_Unmatched
  with assms show ?thesis
    by (auto simp: complete_def Let_def dest!: hist_out dest: hist_print_or_insert)
qed

lemma hist_on_stdin_ready:
  assumes "on_stdin_ready s t = Inr s'"
  shows "hist s' = hist s \<or> hist s' = history_enter (hist s) (buffer (el s))"
  using assms
  by (auto simp: on_stdin_ready_def Let_def run_command_def hist_reset hist_run_command_loop
      split: if_splits tok_result.splits list.splits sum.splits)

lemma reachable_configured: "reachable s \<Longrightarrow> configured (hist s)"
proof (induction rule: reachable.induct)
  case (startup no_matrix matrix_commands prompt_commands saved s)
  then show ?case
    by (auto simp: ev_application_startup_def Let_def dest: configured_init)
next
  case (keys s e)
  then show ?case by simp
next
  case (tab s t ret s')
  then show ?case by (simp add: hist_complete)
next
  case (line s t s')
  from hist_on_stdin_ready [OF line.hyps(2)] line.IH show ?case
    by (auto simp: configured_enter)
qed

lemma reachable_example: "reachable (example_shell [] 0)"
proof -
  have "ev_application_startup None True [] example_commands None = Inr (example_shell [] 0)"
    by (simp add: ev_application_startup_def ev_prompt_init_def example_shell_def reset_def
        tok_reset_def el_init_def history_init_def ev_prompt_add_commands_append)
  then show ?thesis
    by (rule reachable.startup)
qed

text \<open>Loading a file without equal neighbours that fits into the store.\<close>

lemma load_distinct_adj:
  assumes "unique h" and "hsize h = 100" and "distinct_adj (events h @ ls)"
    and "length (events h @ ls) \<le> 100"
  shows "foldl history_enter h ls = h\<lparr>events := events h @ ls\<rparr>"
  using assms
proof (induction ls arbitrary: h)
  case Nil
  then show ?case by simp
next
  case (Cons x xs)
  from Cons.prems(3) have other: "\<not> (events h \<noteq> [] \<and> last (events h) = x)"
    by (auto simp: distinct_adj_append_iff)
  with Cons.prems have step: "history_enter h x = h\<lparr>events := events h @ [x]\<rparr>"
    by (auto simp: history_enter_def)
  from Cons.prems have "foldl history_enter (h\<lparr>events := events h @ [x]\<rparr>) xs =
      h\<lparr>events := events h @ [x], events := events (h\<lparr>events := events h @ [x]\<rparr>) @ xs\<rparr>"
    by (intro Cons.IH) auto
  with step show ?case by simp
qed

lemma distinct_adj_in_turn: "a \<noteq> b \<Longrightarrow> distinct_adj (b # concat (replicate n [a, b]))"
  by (induction n) auto

lemma last_in_turn: "last (concat (replicate (Suc n) [a, b])) = b"
  by (induction n) auto

lemma example_saved_facts:
  "length example_saved = 100" "distinct_adj example_saved"
  "last example_saved = ''/quit'' @ [newline]" "''/help'' @ [newline] \<in> set example_saved"
proof -
  show "length example_saved = 100"
    by (simp add: example_saved_def length_concat sum_list_replicate)
  have "distinct_adj ((''/quit'' @ [newline]) #
          concat (replicate 50 [''/help'' @ [newline], ''/quit'' @ [newline]]))"
    by (rule distinct_adj_in_turn) simp
  then show "distinct_adj example_saved"
    unfolding example_saved_def by (rule distinct_adj_ConsD)
  have "50 = Suc 49" by simp
  then show "last example_saved = ''/quit'' @ [newline]"
    unfolding example_saved_def by (simp only: last_in_turn)
  show "''/help'' @ [newline] \<in> set example_saved"
    by (simp add: example_saved_def)
qed

lemma reachable_full_example: "reachable example_full_shell"
proof -
  have "foldl history_enter \<lparr>events = [], hsize = 100, unique = True\<rparr> example_saved =
          \<lparr>events = example_saved, hsize = 100, unique = True\<rparr>"
    using load_distinct_adj [of "\<lparr>events = [], hsize = 100, unique = True\<rparr>" example_saved]
    by (simp add: example_saved_facts)
  then have "ev_application_startup None True [] example_commands (Some example_saved) =
          Inr example_full_shell"
    by (simp add: ev_application_startup_def ev_prompt_init_def example_full_shell_def
        example_shell_with_def example_shell_def reset_def tok_reset_def el_init_def
        history_init_def ev_prompt_add_commands_append)
  then show ?thesis
    by (rule reachable.startup)
qed

text \<open>
  C6, amended. In every state that a session reaches the history store holds at most
  100 events. Recording a line there that is equal to the most recent event leaves the
  store as it is. Recording any other line, also one that the store holds further
  back, adds it as the most recent event and neither moves nor removes an event of the
  store, except that a store of 100 events drops its oldest event.
\<close>

theorem history_bounded:
  assumes "reachable s"
  shows "length (events (hist s)) \<le> 100 \<and>
         events (history (hist s) (H_ENTER str)) =
           (if events (hist s) \<noteq> [] \<and> last (events (hist s)) = str then events (hist s)
            else if length (events (hist s)) < 100 then events (hist s) @ [str]
            else tl (events (hist s)) @ [str])"
  using reachable_configured [OF assms] history_enter_events [of "hist s" str]
  by (simp add: configured_def)

theorem history_bounded_witness:
  "reachable example_full_shell \<and>
   length (events (hist example_full_shell)) = 100 \<and>
   last (events (hist example_full_shell)) = ''/quit'' @ [newline] \<and>
   ''/help'' @ [newline] \<in> set (events (hist example_full_shell)) \<and>
   events (history (hist example_full_shell) (H_ENTER (''/help'' @ [newline]))) =
     tl (events (hist example_full_shell)) @ [''/help'' @ [newline]] \<and>
   events (history (hist example_full_shell) (H_ENTER (''/quit'' @ [newline]))) =
     events (hist example_full_shell)"
proof -
  have store: "events (hist example_full_shell) = example_saved"
    by (simp add: example_full_shell_def example_shell_with_def)
  have filled: "example_saved \<noteq> []"
    using example_saved_facts(1) by auto
  from store filled example_saved_facts reachable_full_example
    history_bounded [OF reachable_full_example, of "''/help'' @ [newline]"]
    history_bounded [OF reachable_full_example, of "''/quit'' @ [newline]"]
  show ?thesis
    by simp
qed

text \<open>
  The lines \<open>/help\<close>, \<open>/quit\<close> and \<open>/help\<close> again, submitted to a prompt with an empty
  history store: the second \<open>/help\<close> finds the first in the store, and the store grows
  from two events to three, with \<open>/help\<close> in it twice.
\<close>

theorem repeated_line_counterexample:
  "map_sum id (events \<circ> hist)
     (submit_all (example_shell [] 0)
        [(''/help'', [''/help'']), (''/quit'', [''/quit''])]) =
   Inr [''/help'' @ [newline], ''/quit'' @ [newline]] \<and>
   map_sum id (events \<circ> hist)
     (submit_all (example_shell [] 0)
        [(''/help'', [''/help'']), (''/quit'', [''/quit'']), (''/help'', [''/help''])]) =
   Inr [''/help'' @ [newline], ''/quit'' @ [newline], ''/help'' @ [newline]]"
  by (simp add: submit_def on_stdin_ready_def run_command_def render_def history_enter_def
      example_defs state_defs Let_def)

end
